theory Spec2Isabelle
  imports Main
begin

section \<open>The adjoint vector of \<open>JacobianBaseTape\<close>\<close>

text \<open>
  \<open>jacobianBaseTape.hpp\<close> keeps the evaluation vector \<open>adjoints\<close> (a \<open>LocalAdjoints\<close>) and
  consults the index manager for the largest identifier created so far. \<open>Identifier\<close> is the
  32-bit signed \<open>int\<close> of the tape types: identifiers are integers, and every computation the
  source does in \<open>Identifier\<close> is written out with its range. Gradients are any type with a
  zero. An access \<open>adjoints[i]\<close> outside the vector is undefined behaviour in the source; the
  model makes it the error value \<open>OutOfBounds\<close>.
\<close>

datatype error = OutOfBounds | IdentifierOverflow | InvalidSize

type_synonym Identifier = int

definition Identifier_max :: Identifier where
  "Identifier_max = 2147483647"

text \<open>
  The cast \<open>(Identifier)adjoints.size()\<close>: the size is reduced modulo \<open>2^32\<close> and read as a
  signed number.
\<close>

definition to_Identifier :: "nat \<Rightarrow> Identifier" where
  "to_Identifier n =
     (let r = int n mod 4294967296 in if r \<le> Identifier_max then r else r - 4294967296)"

definition at_index :: "'g list \<Rightarrow> Identifier \<Rightarrow> error + 'g" where
  "at_index xs i = (if 0 \<le> i \<and> i < int (length xs) then Inr (xs ! nat i) else Inl OutOfBounds)"

text \<open>
  Modelled from the spec: \<open>LocalAdjoints::resize\<close> (\<open>misc/localAdjoints.hpp\<close> is not part of
  the source tree at hand). The vector is reallocated and copied: the slots that remain keep
  their values, new slots hold the additive identity.
\<close>

definition resize :: "'g::zero list \<Rightarrow> nat \<Rightarrow> 'g list" where
  "resize xs n = take n xs @ replicate (n - length xs) 0"

text \<open>
  Modelled from the spec: \<open>LocalAdjoints::zeroAll\<close> (\<open>misc/localAdjoints.hpp\<close> is not part of
  the source tree at hand). Every slot is reset to the additive identity; the capacity stays.
\<close>

definition zeroAll :: "'g::zero list \<Rightarrow> 'g list" where
  "zeroAll xs = map (\<lambda>_. 0) xs"

record 'g JacobianBaseTape =
  adjoints :: "'g list"
  largestCreatedIndex :: Identifier

text \<open>
  The constructor: \<open>adjoints(1)\<close>, "Ensure that adjoint[0] exists". The index manager belongs
  to the base class; its largest created index at construction is the argument.
\<close>

definition JacobianBaseTape_init :: "Identifier \<Rightarrow> ('g::zero) JacobianBaseTape" where
  "JacobianBaseTape_init l = \<lparr>adjoints = replicate 1 0, largestCreatedIndex = l\<rparr>"

text \<open>
  \<open>resizeAdjointsVector\<close> computes \<open>getLargestCreatedIndex() + 1\<close> in \<open>Identifier\<close>. At the
  largest identifier the sum is not representable: the model makes it the error
  \<open>IdentifierOverflow\<close>. A negative sum is no size a vector can take: the resize fails with
  \<open>InvalidSize\<close>. A failing resize leaves the vector as it was.
\<close>

definition resizeAdjointsVector :: "('g::zero) JacobianBaseTape \<Rightarrow> error + 'g JacobianBaseTape" where
  "resizeAdjointsVector t =
     (if largestCreatedIndex t \<ge> Identifier_max then Inl IdentifierOverflow
      else if largestCreatedIndex t + 1 < 0 then Inl InvalidSize
      else Inr (t\<lparr>adjoints := resize (adjoints t) (nat (largestCreatedIndex t + 1))\<rparr>))"

definition checkAdjointSize :: "('g::zero) JacobianBaseTape \<Rightarrow> Identifier \<Rightarrow> error + 'g JacobianBaseTape" where
  "checkAdjointSize t identifier =
     (if identifier \<ge> to_Identifier (length (adjoints t)) then resizeAdjointsVector t else Inr t)"

text \<open>
  The mutating accessor returns a reference into the vector after the size check: the model
  returns the outcome of the indexing together with the tape after the check.
\<close>

definition gradient :: "('g::zero) JacobianBaseTape \<Rightarrow> Identifier \<Rightarrow> (error + 'g) \<times> 'g JacobianBaseTape" where
  "gradient t identifier =
     (case checkAdjointSize t identifier of
        Inl e \<Rightarrow> (Inl e, t)
      | Inr t' \<Rightarrow> (at_index (adjoints t') identifier, t'))"

text \<open>
  The const accessor. It is a \<open>const\<close> member: it has no tape to return, only the value read.
\<close>

definition gradient_const :: "'g JacobianBaseTape \<Rightarrow> Identifier \<Rightarrow> error + 'g" where
  "gradient_const t identifier =
     (if identifier > to_Identifier (length (adjoints t)) then at_index (adjoints t) 0
      else at_index (adjoints t) identifier)"

definition clearAdjoints :: "('g::zero) JacobianBaseTape \<Rightarrow> 'g JacobianBaseTape" where
  "clearAdjoints t = t\<lparr>adjoints := zeroAll (adjoints t)\<rparr>"

definition deleteAdjointVector :: "('g::zero) JacobianBaseTape \<Rightarrow> 'g JacobianBaseTape" where
  "deleteAdjointVector t = t\<lparr>adjoints := resize (adjoints t) 1\<rparr>"

text \<open>
  \<open>setParameter\<close>: the parameter \<open>AdjointSize\<close> resizes the vector to the given value; every
  other parameter goes to the base class, whose \<open>setParameter\<close> is the argument \<open>base\<close>.
\<close>

datatype 'x TapeParameters = AdjointSize | BaseParameter 'x

definition setParameter ::
  "('x \<Rightarrow> nat \<Rightarrow> 'g JacobianBaseTape \<Rightarrow> 'g JacobianBaseTape) \<Rightarrow> ('g::zero) JacobianBaseTape \<Rightarrow>
   'x TapeParameters \<Rightarrow> nat \<Rightarrow> 'g JacobianBaseTape" where
  "setParameter base t parameter v =
     (case parameter of
        AdjointSize \<Rightarrow> t\<lparr>adjoints := resize (adjoints t) v\<rparr>
      | BaseParameter x \<Rightarrow> base x v t)"

text \<open>
  The two evaluation entry points check the size against the largest created index and then
  hand \<open>adjoints.data()\<close> to the sweep of the implementation class. The sweeps themselves
  (\<open>Impl::evaluateForward\<close>, \<open>Base::evaluate\<close>) are not defined in this file: they are the
  parameter \<open>sweep\<close>, a function of the two positions and the vector contents. When the size
  check fails the sweep does not run.
\<close>

definition evaluateForward ::
  "('p \<Rightarrow> 'p \<Rightarrow> 'g list \<Rightarrow> 'g list) \<Rightarrow> ('g::zero) JacobianBaseTape \<Rightarrow> 'p \<Rightarrow> 'p \<Rightarrow>
   error + 'g JacobianBaseTape" where
  "evaluateForward sweep t start end =
     (case checkAdjointSize t (largestCreatedIndex t) of
        Inl e \<Rightarrow> Inl e
      | Inr t' \<Rightarrow> Inr (t'\<lparr>adjoints := sweep start end (adjoints t')\<rparr>))"

definition evaluate ::
  "('p \<Rightarrow> 'p \<Rightarrow> 'g list \<Rightarrow> 'g list) \<Rightarrow> ('g::zero) JacobianBaseTape \<Rightarrow> 'p \<Rightarrow> 'p \<Rightarrow>
   error + 'g JacobianBaseTape" where
  "evaluate sweep t start end =
     (case checkAdjointSize t (largestCreatedIndex t) of
        Inl e \<Rightarrow> Inl e
      | Inr t' \<Rightarrow> Inr (t'\<lparr>adjoints := sweep start end (adjoints t')\<rparr>))"

text \<open>
  Sequences of calls on one tape. Between calls the index manager may create identifiers:
  \<open>IndexManagerCreates l\<close> sets the largest created index to any value \<open>l\<close>. A failing
  evaluation call leaves the tape as it was.
\<close>

datatype 'p tape_call =
    Call_clearAdjoints
  | Call_deleteAdjointVector
  | Call_evaluateForward 'p 'p
  | Call_evaluate 'p 'p
  | IndexManagerCreates Identifier

fun tape_step ::
  "('p \<Rightarrow> 'p \<Rightarrow> 'g list \<Rightarrow> 'g list) \<Rightarrow> ('p \<Rightarrow> 'p \<Rightarrow> 'g list \<Rightarrow> 'g list) \<Rightarrow>
   ('g::zero) JacobianBaseTape \<Rightarrow> 'p tape_call \<Rightarrow> 'g JacobianBaseTape" where
  "tape_step fw rv t Call_clearAdjoints = clearAdjoints t"
| "tape_step fw rv t Call_deleteAdjointVector = deleteAdjointVector t"
| "tape_step fw rv t (Call_evaluateForward s e) =
     (case evaluateForward fw t s e of Inl _ \<Rightarrow> t | Inr t' \<Rightarrow> t')"
| "tape_step fw rv t (Call_evaluate s e) =
     (case evaluate rv t s e of Inl _ \<Rightarrow> t | Inr t' \<Rightarrow> t')"
| "tape_step fw rv t (IndexManagerCreates l) = t\<lparr>largestCreatedIndex := l\<rparr>"

definition tape_run ::
  "('p \<Rightarrow> 'p \<Rightarrow> 'g list \<Rightarrow> 'g list) \<Rightarrow> ('p \<Rightarrow> 'p \<Rightarrow> 'g list \<Rightarrow> 'g list) \<Rightarrow>
   ('g::zero) JacobianBaseTape \<Rightarrow> 'p tape_call list \<Rightarrow> 'g JacobianBaseTape" where
  "tape_run fw rv t calls = foldl (tape_step fw rv) t calls"

text \<open>
  The invariant of the call sequences: the vector has at least one slot and its size is
  representable in \<open>Identifier\<close>.
\<close>

definition slot0_exists :: "'g JacobianBaseTape \<Rightarrow> bool" where
  "slot0_exists t \<longleftrightarrow> 1 \<le> length (adjoints t) \<and> int (length (adjoints t)) \<le> Identifier_max"

section \<open>The low level function for matrix-matrix multiplication\<close>

text \<open>
  \<open>matrixMatrixMultiplication.hpp\<close> defines \<open>ExtFunc_matrixMatrixMultiplication\<close> for
  \<open>R = A * B\<close> with \<open>A\<close> of shape \<open>n \<times> k\<close>, \<open>B\<close> of shape \<open>k \<times> m\<close> and \<open>R\<close> of shape
  \<open>n \<times> m\<close>, each a flat array viewed through \<open>mapEigen<eigenStore>\<close>. Values and gradients
  are elements of a semiring, identifiers are integers with 0 reserved for "inactive".
\<close>

datatype StorageOptions = RowMajor | ColMajor

text \<open>
  Modelled from the spec: \<open>mapEigen\<close> (\<open>eigenWrappers.hpp\<close> is not part of the source tree at
  hand). It views a flat array as a \<open>rows \<times> cols\<close> matrix in the storage order of the template
  argument; \<open>assignEigen\<close> is an assignment through such a view: it overwrites the first
  \<open>rows * cols\<close> elements of the array.
\<close>

definition entry_index :: "StorageOptions \<Rightarrow> nat \<Rightarrow> nat \<Rightarrow> nat \<Rightarrow> nat \<Rightarrow> nat" where
  "entry_index st rows cols i j = (case st of RowMajor \<Rightarrow> i * cols + j | ColMajor \<Rightarrow> j * rows + i)"

definition mapEigen :: "StorageOptions \<Rightarrow> 'a list \<Rightarrow> nat \<Rightarrow> nat \<Rightarrow> nat \<Rightarrow> nat \<Rightarrow> 'a" where
  "mapEigen st xs rows cols i j = xs ! entry_index st rows cols i j"

definition assignEigen :: "StorageOptions \<Rightarrow> 'a list \<Rightarrow> nat \<Rightarrow> nat \<Rightarrow> (nat \<Rightarrow> nat \<Rightarrow> 'a) \<Rightarrow> 'a list" where
  "assignEigen st xs rows cols f =
     map (\<lambda>p. case st of RowMajor \<Rightarrow> f (p div cols) (p mod cols)
                        | ColMajor \<Rightarrow> f (p mod rows) (p div rows)) [0..<rows * cols]
     @ drop (rows * cols) xs"

text \<open>\<open>rowwise().any()\<close> and \<open>colwise().any()\<close> on a matrix of identifiers.\<close>

definition rowwise_any :: "StorageOptions \<Rightarrow> Identifier list \<Rightarrow> nat \<Rightarrow> nat \<Rightarrow> nat \<Rightarrow> bool" where
  "rowwise_any st ids rows cols i = list_ex (\<lambda>l. mapEigen st ids rows cols i l \<noteq> 0) [0..<cols]"

definition colwise_any :: "StorageOptions \<Rightarrow> Identifier list \<Rightarrow> nat \<Rightarrow> nat \<Rightarrow> nat \<Rightarrow> bool" where
  "colwise_any st ids rows cols j = list_ex (\<lambda>l. mapEigen st ids rows cols l j \<noteq> 0) [0..<rows]"


text \<open>
  \<open>callPrimal\<close>: writes the product into \<open>R\<close> and, when the call is active, the identifier
  markers into \<open>R_i_out\<close>; the model returns both arrays.
\<close>

definition callPrimal ::
  "StorageOptions \<Rightarrow> bool \<Rightarrow> ('a::semiring_0) list \<Rightarrow> bool \<Rightarrow> Identifier list \<Rightarrow> 'a list \<Rightarrow> bool \<Rightarrow>
   Identifier list \<Rightarrow> 'a list \<Rightarrow> Identifier list \<Rightarrow> nat \<Rightarrow> nat \<Rightarrow> nat \<Rightarrow> 'a list \<times> Identifier list" where
  "callPrimal st active A active_A A_i_in B active_B B_i_in R R_i_out n k m =
     (let R' = assignEigen st R n m
                 (\<lambda>i j. \<Sum>l\<leftarrow>[0..<k]. mapEigen st A n k i l * mapEigen st B k m l j);
          R_i = (if active
                 then (let z = assignEigen st R_i_out n m (\<lambda>i j. 0);
                           za = (if active_A
                                 then assignEigen st z n m
                                        (\<lambda>i j. mapEigen st z n m i j + of_bool (rowwise_any st A_i_in n k i))
                                 else z);
                           zb = (if active_B
                                 then assignEigen st za n m
                                        (\<lambda>i j. mapEigen st za n m i j + of_bool (colwise_any st B_i_in k m j))
                                 else za)
                       in zb)
                 else R_i_out)
      in (R', R_i))"









subsection \<open>The byte data protocol\<close>

text \<open>
  The fields of a record and the two byte segments. Each routine is the sequence of its
  store or restore calls, in the order of the source, each call with the segment it works on;
  \<open>Trait::store\<close> is given both segments in one call.
\<close>

datatype segment = Fixed | Dynamic

datatype field = Activity | Arg_A | Arg_B | Arg_R | Arg_n | Arg_k | Arg_m

definition store_fields :: "(segment \<times> field) list" where
  "store_fields =
     [(Fixed, Activity),
      (Fixed, Arg_A), (Dynamic, Arg_A),
      (Fixed, Arg_B), (Dynamic, Arg_B),
      (Fixed, Arg_R), (Dynamic, Arg_R),
      (Fixed, Arg_n), (Dynamic, Arg_n),
      (Fixed, Arg_k), (Dynamic, Arg_k),
      (Fixed, Arg_m), (Dynamic, Arg_m),
      (Fixed, Activity)]"

definition forward_fields :: "(segment \<times> field) list" where
  "forward_fields =
     [(Fixed, Activity),
      (Fixed, Arg_A), (Fixed, Arg_B), (Fixed, Arg_R), (Fixed, Arg_n), (Fixed, Arg_k), (Fixed, Arg_m),
      (Fixed, Activity),
      (Dynamic, Arg_A), (Dynamic, Arg_B), (Dynamic, Arg_R),
      (Dynamic, Arg_n), (Dynamic, Arg_k), (Dynamic, Arg_m)]"

definition reverse_fields :: "(segment \<times> field) list" where
  "reverse_fields =
     [(Fixed, Activity),
      (Fixed, Arg_m), (Fixed, Arg_k), (Fixed, Arg_n), (Fixed, Arg_R), (Fixed, Arg_B), (Fixed, Arg_A),
      (Fixed, Activity),
      (Dynamic, Arg_m), (Dynamic, Arg_k), (Dynamic, Arg_n),
      (Dynamic, Arg_R), (Dynamic, Arg_B), (Dynamic, Arg_A)]"

definition del_fields :: "(segment \<times> field) list" where
  "del_fields =
     [(Fixed, Activity),
      (Fixed, Arg_m), (Fixed, Arg_k), (Fixed, Arg_n), (Fixed, Arg_R), (Fixed, Arg_B), (Fixed, Arg_A),
      (Fixed, Activity),
      (Dynamic, Arg_m), (Dynamic, Arg_k), (Dynamic, Arg_n),
      (Dynamic, Arg_R), (Dynamic, Arg_B), (Dynamic, Arg_A)]"

definition segment_order :: "segment \<Rightarrow> (segment \<times> field) list \<Rightarrow> field list" where
  "segment_order seg accesses = map snd (filter (\<lambda>a. fst a = seg) accesses)"

subsection \<open>Registration and store\<close>

text \<open>
  What the low level function does to the tape is kept as a log of its calls on the tape.
  \<open>ID\<close> is the static token of the function; it starts as \<open>LowLevelFunctionTokenInvalid\<close>.
  The token type, the invalid token and \<open>registerLowLevelFunction\<close> belong to files that are
  not part of the source tree at hand: the invalid token is the parameter \<open>invalid\<close>, and
  the token that the tape hands out is the parameter \<open>newToken\<close>, a function of what the
  tape has seen so far.
\<close>

datatype 'tok tape_effect =
    RegisterLowLevelFunction
  | PushLowLevelFunction 'tok nat nat
  | StoreBytes segment field

record 'tok ExtFunc_state =
  ID :: 'tok
  tape_log :: "'tok tape_effect list"

definition ExtFunc_init :: "'tok \<Rightarrow> 'tok ExtFunc_state" where
  "ExtFunc_init invalid = \<lparr>ID = invalid, tape_log = []\<rparr>"

definition registerOnTape ::
  "'tok \<Rightarrow> ('tok tape_effect list \<Rightarrow> 'tok) \<Rightarrow> 'tok ExtFunc_state \<Rightarrow> 'tok ExtFunc_state" where
  "registerOnTape invalid newToken s =
     (if invalid = ID s
      then s\<lparr>ID := newToken (tape_log s), tape_log := tape_log s @ [RegisterLowLevelFunction]\<rparr>
      else s)"

record 'a ActiveType =
  primalValue :: 'a
  getIdentifier :: Identifier

text \<open>
  Modelled from the spec: \<open>ActiveStoreTrait::isActive\<close> (\<open>lowLevelFunctionCreationHelper.hpp\<close>
  is not part of the source tree at hand). An argument is active if at least one of its
  elements carries a non-reserved identifier.
\<close>

definition isActive :: "'a ActiveType list \<Rightarrow> nat \<Rightarrow> bool" where
  "isActive xs sz = list_ex (\<lambda>x. getIdentifier x \<noteq> 0) (take sz xs)"

text \<open>
  The byte counts of \<open>store\<close>. \<open>countActivitySize\<close> and the \<open>countSize\<close> functions of the
  store traits are parameters: \<open>cnt f sz actions\<close> is the pair of bytes that the trait of
  field \<open>f\<close> adds to the fixed and to the dynamic size.
\<close>

definition count_sizes ::
  "nat \<Rightarrow> (field \<Rightarrow> nat \<Rightarrow> bool list \<Rightarrow> nat \<times> nat) \<Rightarrow> bool \<Rightarrow> bool \<Rightarrow> bool \<Rightarrow> nat \<Rightarrow> nat \<Rightarrow> nat \<Rightarrow> nat \<times> nat" where
  "count_sizes countActivitySize cnt active active_A active_B n k m =
     (let parts = [cnt Arg_A (n * k) [active, True, False, active_A, active_B],
                   cnt Arg_B (k * m) [active, True, False, active_B, active_A],
                   cnt Arg_R (n * m) [active, False, True, False, True],
                   cnt Arg_n 1 [True], cnt Arg_k 1 [True], cnt Arg_m 1 [True]]
      in (2 * countActivitySize + sum_list (map fst parts), sum_list (map snd parts)))"

text \<open>
  \<open>store\<close>. Modelled from the spec: the staging done by \<open>ActiveStoreTrait::store\<close> (not part of
  the source tree at hand): the argument store of an input holds the primal values and the
  identifiers of its elements, the argument store of the output starts zeroed. The model
  returns the state, and the activity flag, the values and the identifiers that \<open>store\<close>
  passes on to \<open>setExternalFunctionOutput\<close> for the elements of \<open>R\<close>.
\<close>

definition store ::
  "StorageOptions \<Rightarrow> 'tok \<Rightarrow> ('tok tape_effect list \<Rightarrow> 'tok) \<Rightarrow> nat \<Rightarrow>
   (field \<Rightarrow> nat \<Rightarrow> bool list \<Rightarrow> nat \<times> nat) \<Rightarrow> 'tok ExtFunc_state \<Rightarrow>
   ('a::semiring_0) ActiveType list \<Rightarrow> 'a ActiveType list \<Rightarrow> nat \<Rightarrow> nat \<Rightarrow> nat \<Rightarrow>
   'tok ExtFunc_state \<times> bool \<times> 'a list \<times> Identifier list" where
  "store st invalid newToken countActivitySize cnt s A B n k m =
     (let active_A = isActive A (n * k);
          active_B = isActive B (k * m);
          active = (active_A \<or> active_B);
          s' = (if active
                then (let s1 = registerOnTape invalid newToken s;
                          sizes = count_sizes countActivitySize cnt active active_A active_B n k m;
                          s2 = s1\<lparr>tape_log := tape_log s1 @ [PushLowLevelFunction (ID s1) (fst sizes) (snd sizes)]\<rparr>
                      in s2\<lparr>tape_log := tape_log s2 @ map (\<lambda>a. StoreBytes (fst a) (snd a)) store_fields\<rparr>)
                else s);
          (R_value, R_identifierOut) =
             callPrimal st active
               (map primalValue (take (n * k) A)) active_A (map getIdentifier (take (n * k) A))
               (map primalValue (take (k * m) B)) active_B (map getIdentifier (take (k * m) B))
               (replicate (n * m) 0) (replicate (n * m) 0) n k m
      in (s', active, R_value, R_identifierOut))"

section \<open>Properties of the adjoint vector\<close>

lemma length_resize: "length (resize xs n) = n"
  by (simp add: resize_def)

lemma nth_resize_new: "length xs \<le> i \<Longrightarrow> i < n \<Longrightarrow> resize xs n ! i = 0"
  by (simp add: resize_def nth_append)

lemma take_resize_grow: "length xs \<le> n \<Longrightarrow> take (length xs) (resize xs n) = xs"
  by (simp add: resize_def)

lemma to_Identifier_exact: "int n \<le> Identifier_max \<Longrightarrow> to_Identifier n = int n"
  by (simp add: to_Identifier_def Identifier_max_def Let_def)

lemma to_Identifier_le: "to_Identifier n \<le> int n"
proof -
  have "int n mod 4294967296 \<le> int n"
    by (rule zmod_le_nonneg_dividend) simp
  then show ?thesis
    by (simp add: to_Identifier_def Let_def)
qed

lemma gradient_const_nonempty:
  assumes "adjoints t \<noteq> []" and "identifier > int (length (adjoints t))"
  shows "gradient_const t identifier = Inr (adjoints t ! 0)"
proof -
  have "identifier > to_Identifier (length (adjoints t))"
    using assms(2) to_Identifier_le [of "length (adjoints t)"] by linarith
  then show ?thesis
    using assms(1) by (simp add: gradient_const_def at_index_def)
qed

text \<open>
  C1. The const accessor answers an identifier beyond the size with \<open>adjoints[0]\<close>, which
  is a read inside the vector only while slot 0 exists. The constructor makes slot 0 for
  this very use and \<open>deleteAdjointVector\<close> keeps it, but \<open>setParameter\<close> resizes to any
  value: after \<open>setParameter(AdjointSize, 0)\<close> on a fresh tape the vector is empty, the
  identifier 5 exceeds its size, and the read of slot 0 is outside the vector.
\<close>

theorem gradient_const_after_setParameter_zero:
  "adjoints (setParameter (\<lambda>(x::unit) v t. t) (JacobianBaseTape_init 0 :: int JacobianBaseTape) AdjointSize 0) = []
   \<and> 5 > int (length (adjoints (setParameter (\<lambda>(x::unit) v t. t)
                                   (JacobianBaseTape_init 0 :: int JacobianBaseTape) AdjointSize 0)))
   \<and> gradient_const (setParameter (\<lambda>(x::unit) v t. t) (JacobianBaseTape_init 0 :: int JacobianBaseTape) AdjointSize 0) 5
       = Inl OutOfBounds"
  by (simp add: setParameter_def JacobianBaseTape_init_def resize_def gradient_const_def
      at_index_def to_Identifier_def Identifier_max_def Let_def)

text \<open>
  C2 (as stated). The specification promises a vector of at least \<open>id + 1\<close> slots for every identifier
  at or beyond the current size. The resize goes to the largest created index plus one, whatever
  the identifier asked for: on a fresh tape whose index manager has created nothing, asking
  for the gradient of identifier 5 leaves the vector at one slot and indexes outside it.
\<close>

theorem gradient_resize_counterexample:
  "5 \<ge> int (length (adjoints (JacobianBaseTape_init 0 :: int JacobianBaseTape)))
   \<and> length (adjoints (snd (gradient (JacobianBaseTape_init 0 :: int JacobianBaseTape) 5))) = 1
   \<and> fst (gradient (JacobianBaseTape_init 0 :: int JacobianBaseTape) 5) = Inl OutOfBounds"
  by (simp add: gradient_def checkAdjointSize_def resizeAdjointsVector_def resize_def
      JacobianBaseTape_init_def at_index_def to_Identifier_def Identifier_max_def Let_def)

text \<open>
  C2 (amended). For an identifier at or beyond the current size that the index manager has
  created (it is at most the largest created index), and a largest created index below the
  largest value of \<open>Identifier\<close>, the mutating accessor first resizes the vector to the largest
  created index plus one, which is at least \<open>id + 1\<close>; the indexing is then inside the vector
  and yields the fresh slot, holding zero.
\<close>

theorem gradient_resizes_created_identifier:
  assumes "int (length (adjoints t)) \<le> identifier" and "identifier \<le> largestCreatedIndex t"
    and "largestCreatedIndex t < Identifier_max"
  shows "length (adjoints (snd (gradient t identifier))) = nat (largestCreatedIndex t + 1)
       \<and> nat identifier + 1 \<le> length (adjoints (snd (gradient t identifier)))
       \<and> fst (gradient t identifier) = Inr 0"
proof -
  let ?t' = "t\<lparr>adjoints := resize (adjoints t) (nat (largestCreatedIndex t + 1))\<rparr>"
  have pos: "0 \<le> identifier" using assms(1) by linarith
  have "int (length (adjoints t)) \<le> Identifier_max" using assms by linarith
  then have cast: "to_Identifier (length (adjoints t)) = int (length (adjoints t))"
    by (rule to_Identifier_exact)
  have chk: "checkAdjointSize t identifier = Inr ?t'"
    using assms pos cast by (simp add: checkAdjointSize_def resizeAdjointsVector_def)
  have len: "length (adjoints ?t') = nat (largestCreatedIndex t + 1)"
    by (simp add: length_resize)
  have inside: "nat identifier < nat (largestCreatedIndex t + 1)"
    using assms(2) pos by linarith
  have old: "length (adjoints t) \<le> nat identifier"
    using assms(1) pos by linarith
  have "adjoints ?t' ! nat identifier = 0"
    using old inside by (simp add: nth_resize_new)
  moreover have "identifier < int (length (adjoints ?t'))"
    using len inside pos by linarith
  ultimately have "at_index (adjoints ?t') identifier = Inr 0"
    using pos by (simp add: at_index_def)
  moreover have "nat identifier + 1 \<le> nat (largestCreatedIndex t + 1)"
    using inside by linarith
  ultimately show ?thesis
    using len chk by (simp add: gradient_def)
qed

theorem gradient_resizes_created_identifier_witness:
  "int (length (adjoints \<lparr>adjoints = [7 :: int], largestCreatedIndex = 4\<rparr>)) \<le> 3
   \<and> 3 \<le> largestCreatedIndex \<lparr>adjoints = [7 :: int], largestCreatedIndex = 4\<rparr>
   \<and> largestCreatedIndex \<lparr>adjoints = [7 :: int], largestCreatedIndex = 4\<rparr> < Identifier_max
   \<and> length (adjoints (snd (gradient \<lparr>adjoints = [7 :: int], largestCreatedIndex = 4\<rparr> 3))) = 5
   \<and> fst (gradient \<lparr>adjoints = [7 :: int], largestCreatedIndex = 4\<rparr> 3) = Inr 0"
  using gradient_resizes_created_identifier
    [of "\<lparr>adjoints = [7 :: int], largestCreatedIndex = 4\<rparr>" 3]
  by (simp add: Identifier_max_def)

text \<open>
  C7 (as stated). The specification has every evaluation call resize the vector when an
  identifier lies beyond it, never with an error. The new size is computed as the largest
  created index plus one in \<open>Identifier\<close>: when the largest created index is the largest
  value of \<open>Identifier\<close> the sum is not representable, and both evaluation calls fail in the
  size check, before the sweep.
\<close>

theorem evaluation_overflow_counterexample:
  "int (length (adjoints \<lparr>adjoints = [0 :: int], largestCreatedIndex = 2147483647\<rparr>))
     \<le> largestCreatedIndex \<lparr>adjoints = [0 :: int], largestCreatedIndex = 2147483647\<rparr>
   \<and> evaluateForward (\<lambda>s e xs. xs) \<lparr>adjoints = [0 :: int], largestCreatedIndex = 2147483647\<rparr> () ()
       = Inl IdentifierOverflow
   \<and> evaluate (\<lambda>s e xs. xs) \<lparr>adjoints = [0 :: int], largestCreatedIndex = 2147483647\<rparr> () ()
       = Inl IdentifierOverflow"
  by (simp add: evaluateForward_def evaluate_def checkAdjointSize_def resizeAdjointsVector_def
      to_Identifier_def Identifier_max_def Let_def)

text \<open>
  C7 (amended). When the size of the vector and the largest created index plus one are
  representable in \<open>Identifier\<close>, both evaluation entry points succeed and run their sweep on
  the vector of the tape after the size check. That vector covers the largest created index
  and keeps the old slots; when the index lay beyond the old size the vector has been resized
  to exactly the largest created index plus one.
\<close>

theorem evaluation_resizes_before_sweep:
  assumes "int (length (adjoints t)) \<le> Identifier_max"
    and "largestCreatedIndex t < Identifier_max"
  shows "\<exists>t'. checkAdjointSize t (largestCreatedIndex t) = Inr t'
       \<and> evaluateForward fw t s e = Inr (t'\<lparr>adjoints := fw s e (adjoints t')\<rparr>)
       \<and> evaluate rv t s e = Inr (t'\<lparr>adjoints := rv s e (adjoints t')\<rparr>)
       \<and> largestCreatedIndex t < int (length (adjoints t'))
       \<and> (int (length (adjoints t)) \<le> largestCreatedIndex t \<longrightarrow>
            length (adjoints t') = nat (largestCreatedIndex t + 1))
       \<and> take (length (adjoints t)) (adjoints t') = adjoints t"
proof -
  have cast: "to_Identifier (length (adjoints t)) = int (length (adjoints t))"
    using assms(1) by (rule to_Identifier_exact)
  show ?thesis
  proof (cases "int (length (adjoints t)) \<le> largestCreatedIndex t")
    case True
    let ?t' = "t\<lparr>adjoints := resize (adjoints t) (nat (largestCreatedIndex t + 1))\<rparr>"
    have chk: "checkAdjointSize t (largestCreatedIndex t) = Inr ?t'"
      using True assms(2) cast by (simp add: checkAdjointSize_def resizeAdjointsVector_def)
    have grow: "length (adjoints t) \<le> nat (largestCreatedIndex t + 1)"
      using True by linarith
    have keep: "take (length (adjoints t)) (adjoints ?t') = adjoints t"
      using grow by (simp add: take_resize_grow)
    have cover: "largestCreatedIndex t < int (length (adjoints ?t'))"
      using True by (simp add: length_resize)
    show ?thesis
      using chk keep cover
      by (simp add: evaluateForward_def evaluate_def length_resize)
  next
    case False
    have chk: "checkAdjointSize t (largestCreatedIndex t) = Inr t"
      using False cast by (simp add: checkAdjointSize_def)
    show ?thesis
      using chk False by (simp add: evaluateForward_def evaluate_def)
  qed
qed

theorem evaluation_resizes_before_sweep_witness:
  "int (length (adjoints \<lparr>adjoints = [1, 2 :: int], largestCreatedIndex = 4\<rparr>)) \<le> Identifier_max
   \<and> largestCreatedIndex \<lparr>adjoints = [1, 2 :: int], largestCreatedIndex = 4\<rparr> < Identifier_max
   \<and> int (length (adjoints \<lparr>adjoints = [1, 2 :: int], largestCreatedIndex = 4\<rparr>)) \<le> 4
   \<and> evaluate (\<lambda>s e xs. xs) \<lparr>adjoints = [1, 2 :: int], largestCreatedIndex = 4\<rparr> () ()
       = Inr \<lparr>adjoints = [1, 2, 0, 0, 0], largestCreatedIndex = 4\<rparr>"
proof -
  have "checkAdjointSize \<lparr>adjoints = [1, 2 :: int], largestCreatedIndex = 4\<rparr> 4
          = Inr \<lparr>adjoints = [1, 2, 0, 0, 0], largestCreatedIndex = 4\<rparr>"
    by (simp add: checkAdjointSize_def resizeAdjointsVector_def resize_def numeral_eq_Suc
        to_Identifier_def Identifier_max_def Let_def)
  then show ?thesis
    using evaluation_resizes_before_sweep
      [of "\<lparr>adjoints = [1, 2 :: int], largestCreatedIndex = 4\<rparr>" "\<lambda>s e xs. xs" "()" "()" "\<lambda>s e xs. xs"]
    by (simp add: Identifier_max_def)
qed

text \<open>
  C8. \<open>clearAdjoints\<close> hands the whole vector to \<open>zeroAll\<close>: afterwards every slot holds the
  additive identity, the vector has the size it had, and nothing else of the tape changed.
\<close>

theorem clearAdjoints_zeroes_all:
  "adjoints (clearAdjoints t) = replicate (length (adjoints t)) 0
   \<and> length (adjoints (clearAdjoints t)) = length (adjoints t)
   \<and> largestCreatedIndex (clearAdjoints t) = largestCreatedIndex t"
  by (simp add: clearAdjoints_def zeroAll_def map_replicate_const)

lemma checkAdjointSize_slot0:
  assumes "slot0_exists t" and "checkAdjointSize t (largestCreatedIndex t) = Inr t'"
  shows "1 \<le> length (adjoints t') \<and> int (length (adjoints t')) \<le> Identifier_max"
proof -
  have cast: "to_Identifier (length (adjoints t)) = int (length (adjoints t))"
    using assms(1) by (simp add: slot0_exists_def to_Identifier_exact)
  show ?thesis
  proof (cases "int (length (adjoints t)) \<le> largestCreatedIndex t")
    case True
    then have r: "resizeAdjointsVector t = Inr t'"
      using assms(2) cast by (simp add: checkAdjointSize_def)
    then have lt: "largestCreatedIndex t < Identifier_max"
      by (auto simp add: resizeAdjointsVector_def split: if_splits)
    have "t' = t\<lparr>adjoints := resize (adjoints t) (nat (largestCreatedIndex t + 1))\<rparr>"
      using r by (auto simp add: resizeAdjointsVector_def split: if_splits)
    then have "length (adjoints t') = nat (largestCreatedIndex t + 1)"
      by (simp add: length_resize)
    moreover have "1 \<le> largestCreatedIndex t"
      using True assms(1) by (simp add: slot0_exists_def)
    ultimately show ?thesis using lt by simp
  next
    case False
    then have "t' = t"
      using assms(2) cast by (simp add: checkAdjointSize_def)
    then show ?thesis using assms(1) by (simp add: slot0_exists_def)
  qed
qed

lemma tape_step_slot0:
  assumes fw: "\<And>s e xs. length (fw s e xs) = length xs"
      and rv: "\<And>s e xs. length (rv s e xs) = length xs"
      and inv: "slot0_exists t"
  shows "slot0_exists (tape_step fw rv t c)"
proof (cases c)
  case Call_clearAdjoints
  then show ?thesis using inv by (simp add: slot0_exists_def clearAdjoints_def zeroAll_def)
next
  case Call_deleteAdjointVector
  then show ?thesis
    by (simp add: slot0_exists_def deleteAdjointVector_def length_resize Identifier_max_def)
next
  case (Call_evaluateForward s e)
  show ?thesis
  proof (cases "checkAdjointSize t (largestCreatedIndex t)")
    case (Inl err)
    then show ?thesis using Call_evaluateForward inv by (simp add: evaluateForward_def)
  next
    case (Inr t')
    have "1 \<le> length (adjoints t') \<and> int (length (adjoints t')) \<le> Identifier_max"
      using inv Inr by (rule checkAdjointSize_slot0)
    then show ?thesis
      using Call_evaluateForward Inr by (simp add: evaluateForward_def slot0_exists_def fw)
  qed
next
  case (Call_evaluate s e)
  show ?thesis
  proof (cases "checkAdjointSize t (largestCreatedIndex t)")
    case (Inl err)
    then show ?thesis using Call_evaluate inv by (simp add: evaluate_def)
  next
    case (Inr t')
    have "1 \<le> length (adjoints t') \<and> int (length (adjoints t')) \<le> Identifier_max"
      using inv Inr by (rule checkAdjointSize_slot0)
    then show ?thesis
      using Call_evaluate Inr by (simp add: evaluate_def slot0_exists_def rv)
  qed
next
  case (IndexManagerCreates l)
  then show ?thesis using inv by (simp add: slot0_exists_def)
qed

lemma tape_run_slot0:
  assumes fw: "\<And>s e xs. length (fw s e xs) = length xs"
      and rv: "\<And>s e xs. length (rv s e xs) = length xs"
  shows "slot0_exists t \<Longrightarrow> slot0_exists (tape_run fw rv t calls)"
  unfolding tape_run_def
proof (induction calls arbitrary: t)
  case Nil
  then show ?case by simp
next
  case (Cons c calls)
  have "slot0_exists (tape_step fw rv t c)"
    by (rule tape_step_slot0 [of fw rv]) (simp_all add: fw rv Cons.prems)
  then show ?case using Cons.IH by simp
qed

text \<open>
  C9. The constructor makes the vector with exactly one slot, \<open>deleteAdjointVector\<close> resizes
  it to exactly one slot, and after any sequence of \<open>deleteAdjointVector\<close>, \<open>clearAdjoints\<close>,
  \<open>evaluateForward\<close> and \<open>evaluate\<close> calls on a constructed tape (with the index manager
  creating identifiers in between) the vector is non-empty, so reading \<open>gradient(0)\<close> is an
  access inside the vector. The sweeps work on \<open>adjoints.data()\<close> in place, so they keep the
  length of the vector.
\<close>

theorem adjoints_never_empty:
  assumes "\<And>s e xs. length (fw s e xs) = length xs"
      and "\<And>s e xs. length (rv s e xs) = length xs"
  shows "length (adjoints (JacobianBaseTape_init l :: ('g::zero) JacobianBaseTape)) = 1
       \<and> length (adjoints (deleteAdjointVector (t :: 'g JacobianBaseTape))) = 1
       \<and> adjoints (tape_run fw rv (JacobianBaseTape_init l :: 'g JacobianBaseTape) calls) \<noteq> []
       \<and> gradient_const (tape_run fw rv (JacobianBaseTape_init l :: 'g JacobianBaseTape) calls) 0
           = Inr (adjoints (tape_run fw rv (JacobianBaseTape_init l) calls) ! 0)"
proof -
  let ?t0 = "JacobianBaseTape_init l :: 'g JacobianBaseTape"
  have init: "length (adjoints ?t0) = 1"
    by (simp add: JacobianBaseTape_init_def)
  then have inv0: "slot0_exists ?t0"
    by (simp add: slot0_exists_def Identifier_max_def)
  have "slot0_exists (tape_run fw rv ?t0 calls)"
    by (rule tape_run_slot0 [of fw rv]) (simp_all add: assms inv0)
  then have ne: "adjoints (tape_run fw rv ?t0 calls) \<noteq> []"
    by (auto simp add: slot0_exists_def)
  have "gradient_const (tape_run fw rv ?t0 calls) 0 = Inr (adjoints (tape_run fw rv ?t0 calls) ! 0)"
    using ne by (simp add: gradient_const_def at_index_def)
  then show ?thesis
    using init ne by (simp add: deleteAdjointVector_def length_resize)
qed

theorem adjoints_never_empty_witness:
  "(\<forall>s e xs. length ((\<lambda>(s::unit) (e::unit) (xs::int list). xs) s e xs) = length xs)
   \<and> adjoints (tape_run (\<lambda>s e xs. xs) (\<lambda>s e xs. xs) (JacobianBaseTape_init 0 :: int JacobianBaseTape)
        [IndexManagerCreates 3, Call_evaluate () (), Call_deleteAdjointVector, Call_clearAdjoints]) \<noteq> []"
  using adjoints_never_empty [of "\<lambda>(s::unit) (e::unit) (xs::int list). xs" "\<lambda>(s::unit) (e::unit) (xs::int list). xs" 0
      "\<lparr>adjoints = [], largestCreatedIndex = 0\<rparr>"
      "[IndexManagerCreates 3, Call_evaluate () (), Call_deleteAdjointVector, Call_clearAdjoints]"]
  by simp

section \<open>Properties of the matrix-matrix multiplication\<close>

lemma entry_index_less:
  assumes "i < rows" and "j < cols"
  shows "entry_index st rows cols i j < rows * cols"
proof (cases st)
  case RowMajor
  have "i * cols + j < i * cols + cols" using assms(2) by simp
  also have "\<dots> = Suc i * cols" by simp
  also have "\<dots> \<le> rows * cols" using assms(1) by (intro mult_le_mono1) simp
  finally show ?thesis using RowMajor by (simp add: entry_index_def)
next
  case ColMajor
  have "j * rows + i < j * rows + rows" using assms(1) by simp
  also have "\<dots> = Suc j * rows" by simp
  also have "\<dots> \<le> cols * rows" using assms(2) by (intro mult_le_mono1) simp
  finally show ?thesis using ColMajor by (simp add: entry_index_def mult.commute)
qed

lemma mapEigen_assignEigen:
  assumes "i < rows" and "j < cols"
  shows "mapEigen st (assignEigen st xs rows cols f) rows cols i j = f i j"
proof -
  have lt: "entry_index st rows cols i j < rows * cols"
    using assms by (rule entry_index_less)
  show ?thesis
  proof (cases st)
    case RowMajor
    then show ?thesis
      using lt assms by (simp add: mapEigen_def assignEigen_def nth_append entry_index_def)
  next
    case ColMajor
    then show ?thesis
      using lt assms by (simp add: mapEigen_def assignEigen_def nth_append entry_index_def)
  qed
qed

lemma rowwise_any_iff:
  "rowwise_any st ids rows cols i \<longleftrightarrow> (\<exists>l<cols. mapEigen st ids rows cols i l \<noteq> 0)"
  by (auto simp: rowwise_any_def list_ex_iff)

lemma colwise_any_iff:
  "colwise_any st ids rows cols j \<longleftrightarrow> (\<exists>l<rows. mapEigen st ids rows cols l j \<noteq> 0)"
  by (auto simp: colwise_any_def list_ex_iff)

lemma marker_entry:
  assumes "i < n" and "j < m"
  shows "mapEigen st (snd (callPrimal st True A active_A A_i_in B active_B B_i_in R R_i_out n k m)) n m i j
         = (if active_A then of_bool (rowwise_any st A_i_in n k i) else 0)
           + (if active_B then of_bool (colwise_any st B_i_in k m j) else 0)"
  using assms by (simp add: callPrimal_def Let_def mapEigen_assignEigen)












text \<open>
  C4 (as stated). The specification has the delete routine read the fields in the order in which
  \<open>store\<close> wrote them, in each segment. \<open>del\<close> restores them in the order of \<open>reverse\<close>:
  in both segments its order differs from the order of \<open>store\<close>.
\<close>

theorem del_order_counterexample:
  "segment_order Fixed del_fields \<noteq> segment_order Fixed store_fields
   \<and> segment_order Dynamic del_fields \<noteq> segment_order Dynamic store_fields"
  by (simp add: segment_order_def del_fields_def store_fields_def)

text \<open>
  C4 (amended). In each of the two segments \<open>forward\<close> restores the fields in exactly the
  order in which \<open>store\<close> wrote them, while \<open>reverse\<close> and \<open>del\<close> both restore them in exactly
  the opposite order (the activity flags are stored at both ends of the fixed segment, so
  they come first in either direction). Each replay routine works through the fixed segment
  first and through the dynamic segment afterwards.
\<close>

theorem byte_data_field_order:
  "segment_order Fixed forward_fields = segment_order Fixed store_fields
   \<and> segment_order Dynamic forward_fields = segment_order Dynamic store_fields
   \<and> segment_order Fixed reverse_fields = rev (segment_order Fixed store_fields)
   \<and> segment_order Dynamic reverse_fields = rev (segment_order Dynamic store_fields)
   \<and> segment_order Fixed del_fields = rev (segment_order Fixed store_fields)
   \<and> segment_order Dynamic del_fields = rev (segment_order Dynamic store_fields)
   \<and> forward_fields = map (Pair Fixed) (segment_order Fixed forward_fields)
                       @ map (Pair Dynamic) (segment_order Dynamic forward_fields)
   \<and> reverse_fields = map (Pair Fixed) (segment_order Fixed reverse_fields)
                       @ map (Pair Dynamic) (segment_order Dynamic reverse_fields)
   \<and> del_fields = map (Pair Fixed) (segment_order Fixed del_fields)
                   @ map (Pair Dynamic) (segment_order Dynamic del_fields)"
  by (simp add: segment_order_def forward_fields_def reverse_fields_def del_fields_def store_fields_def)



lemma store_active_log:
  assumes "isActive A (n * k) \<or> isActive B (k * m)" and "ID s = invalid"
  shows "ID (fst (store st invalid newToken cas cnt s A B n k m)) = newToken (tape_log s)
       \<and> tape_log (fst (store st invalid newToken cas cnt s A B n k m))
           = tape_log s
             @ [RegisterLowLevelFunction,
                PushLowLevelFunction (newToken (tape_log s))
                  (fst (count_sizes cas cnt True (isActive A (n * k)) (isActive B (k * m)) n k m))
                  (snd (count_sizes cas cnt True (isActive A (n * k)) (isActive B (k * m)) n k m))]
             @ map (\<lambda>a. StoreBytes (fst a) (snd a)) store_fields"
  using assms
  by (auto simp add: store_def Let_def registerOnTape_def split: prod.split)

text \<open>
  C6. \<open>registerOnTape\<close> compares the static token with the invalid token. The first call,
  on the invalid token, registers on the tape once and keeps the token the tape hands out;
  a second call changes nothing: same token, no second registration. The tape hands out a
  valid token.
\<close>

theorem registerOnTape_twice:
  assumes "ID s = invalid" and "newToken (tape_log s) \<noteq> invalid"
  shows "ID (registerOnTape invalid newToken s) = newToken (tape_log s)
       \<and> tape_log (registerOnTape invalid newToken s) = tape_log s @ [RegisterLowLevelFunction]
       \<and> registerOnTape invalid newToken (registerOnTape invalid newToken s)
           = registerOnTape invalid newToken s"
proof -
  let ?s1 = "registerOnTape invalid newToken s"
  have first: "?s1 = s\<lparr>ID := newToken (tape_log s), tape_log := tape_log s @ [RegisterLowLevelFunction]\<rparr>"
    using assms(1) by (simp add: registerOnTape_def)
  then have "ID ?s1 \<noteq> invalid" using assms(2) by simp
  then have "registerOnTape invalid newToken ?s1 = ?s1"
    by (simp add: registerOnTape_def)
  then show ?thesis using first by simp
qed

theorem registerOnTape_twice_witness:
  "ID (ExtFunc_init (65535::nat)) = 65535 \<and> length (tape_log (ExtFunc_init (65535::nat))) \<noteq> 65535
   \<and> registerOnTape 65535 length (registerOnTape 65535 length (ExtFunc_init (65535::nat)))
       = \<lparr>ID = 0, tape_log = [RegisterLowLevelFunction]\<rparr>"
  using registerOnTape_twice [of "ExtFunc_init (65535::nat)" 65535 length]
  by (simp add: ExtFunc_init_def registerOnTape_def)

text \<open>
  C10. In an active call of \<open>callPrimal\<close> (at least one of \<open>A\<close>, \<open>B\<close> active) the identifier
  marker of \<open>R\<close> at position \<open>(i, j)\<close> is non-zero exactly when \<open>A\<close> is active and row \<open>i\<close> of the
  identifiers of \<open>A\<close> has a non-zero entry, or \<open>B\<close> is active and column \<open>j\<close> of the identifiers
  of \<open>B\<close> has a non-zero entry; every other position holds the zero identifier.
\<close>

theorem callPrimal_markers:
  assumes "active_A \<or> active_B" and "i < n" and "j < m"
  shows "mapEigen st (snd (callPrimal st (active_A \<or> active_B) A active_A A_i_in B active_B B_i_in R R_i_out n k m)) n m i j \<noteq> 0
         \<longleftrightarrow> (active_A \<and> (\<exists>l<k. mapEigen st A_i_in n k i l \<noteq> 0))
           \<or> (active_B \<and> (\<exists>l<k. mapEigen st B_i_in k m l j \<noteq> 0))"
proof -
  have "mapEigen st (snd (callPrimal st True A active_A A_i_in B active_B B_i_in R R_i_out n k m)) n m i j
         = (if active_A then of_bool (rowwise_any st A_i_in n k i) else 0)
           + (if active_B then of_bool (colwise_any st B_i_in k m j) else 0)"
    using assms(2,3) by (rule marker_entry)
  then show ?thesis
    using assms(1) by (auto simp: rowwise_any_iff colwise_any_iff)
qed

theorem callPrimal_markers_witness:
  "(True \<or> False) \<and> (1::nat) < 2 \<and> (0::nat) < 2
   \<and> snd (callPrimal RowMajor True [1, 2, 3, 4 :: int] True [0, 0, 3, 0] [5, 6, 7, 8] False [0, 0, 0, 0]
        [0, 0, 0, 0] [9, 9, 9, 9] 2 2 2) = [0, 0, 1, 1]
   \<and> (\<exists>l<2. mapEigen RowMajor [0, 0, 3, 0 :: int] 2 2 1 l \<noteq> 0)"
proof -
  have ev: "snd (callPrimal RowMajor True [1, 2, 3, 4 :: int] True [0, 0, 3, 0] [5, 6, 7, 8] False [0, 0, 0, 0]
        [0, 0, 0, 0] [9, 9, 9, 9] 2 2 2) = [0, 0, 1, 1]"
    by code_simp
  show ?thesis
    using ev callPrimal_markers
      [where active_A = True and active_B = False and i = 1 and n = 2 and j = 0 and m = 2
         and st = RowMajor and A = "[1, 2, 3, 4 :: int]" and A_i_in = "[0, 0, 3, 0]"
         and B = "[5, 6, 7, 8]" and B_i_in = "[0, 0, 0, 0]" and R = "[0, 0, 0, 0]"
         and R_i_out = "[9, 9, 9, 9]" and k = 2]
    by (simp add: mapEigen_def entry_index_def)
qed

end
